theory Spec2Isabelle
  imports Main "HOL-Library.Sublist"
begin

section \<open>Python string operations used by the relay\<close>

text \<open>
  The reasoning stage of every variant works on Python \<^verbatim>\<open>str\<close> values with four
  operations: the substring test \<^verbatim>\<open>sep in s\<close>, \<^verbatim>\<open>s.split(sep)[0]\<close>,
  \<^verbatim>\<open>s.replace(old, new)\<close> and, in the local variant, the regular expression
  \<^verbatim>\<open>re.findall(r'<think>(.*?)</think>', s, re.DOTALL)\<close>. Strings are character
  lists; the two delimiters are the literals of the source.
\<close>

definition OPEN :: string where
  "OPEN = ''<think>''"

definition CLOSE :: string where
  "CLOSE = ''</think>''"

text \<open>\<^verbatim>\<open>sep in s\<close>: does \<open>sep\<close> occur somewhere in \<open>s\<close>.\<close>

fun contains :: "string \<Rightarrow> string \<Rightarrow> bool" where
  "contains sep [] = (sep = [])"
| "contains sep (c # s) = (prefix sep (c # s) \<or> contains sep s)"

text \<open>
  \<^verbatim>\<open>s.split(sep)[0]\<close>: the text before the first occurrence of \<open>sep\<close>, the whole
  of \<open>s\<close> when there is none (\<open>sep\<close> is never empty in the source).
\<close>

fun before_first :: "string \<Rightarrow> string \<Rightarrow> string" where
  "before_first sep [] = []"
| "before_first sep (c # s) = (if prefix sep (c # s) then [] else c # before_first sep s)"

text \<open>
  \<^verbatim>\<open>s.replace(old, new)\<close>: every non-overlapping occurrence of \<open>old\<close>, found
  from the left in one pass, is replaced by \<open>new\<close>; text produced by a replacement
  is not scanned again.
\<close>

function str_replace :: "string \<Rightarrow> string \<Rightarrow> string \<Rightarrow> string" where
  "str_replace old new [] = []"
| "str_replace old new (c # s) =
     (if old \<noteq> [] \<and> prefix old (c # s)
      then new @ str_replace old new (drop (length old) (c # s))
      else c # str_replace old new s)"
  by pat_completeness auto
termination
  by (relation "measure (\<lambda>(old, new, s). length s)") (auto simp: neq_Nil_conv)

text \<open>
  The search of the regular expression engine for a literal: \<open>split_first sep s\<close> is the
  text before and the text after the first occurrence of \<open>sep\<close> in \<open>s\<close>.
\<close>

fun split_first :: "string \<Rightarrow> string \<Rightarrow> (string \<times> string) option" where
  "split_first sep [] = (if sep = [] then Some ([], []) else None)"
| "split_first sep (c # s) =
     (if prefix sep (c # s) then Some ([], drop (length sep) (c # s))
      else map_option (\<lambda>(a, b). (c # a, b)) (split_first sep s))"

lemma split_first_length:
  "split_first sep s = Some (a, b) \<Longrightarrow> length a + length sep + length b = length s"
proof (induction s arbitrary: a)
  case Nil
  then show ?case by (simp split: if_splits)
next
  case (Cons c s)
  show ?case
  proof (cases "prefix sep (c # s)")
    case True
    with Cons.prems have "a = []" "b = drop (length sep) (c # s)" by simp_all
    moreover from True have "length sep \<le> length (c # s)" by (rule prefix_length_le)
    ultimately show ?thesis by simp
  next
    case False
    with Cons.prems obtain a' where "split_first sep s = Some (a', b)" "a = c # a'"
      by auto
    with Cons.IH [of a'] show ?thesis by simp
  qed
qed

text \<open>
  \<^verbatim>\<open>re.findall(r'<think>(.*?)</think>', s, re.DOTALL)\<close>: the matches are found from
  the left and do not overlap. A match starts at the first \<^verbatim>\<open><think>\<close>; its group
  is lazy, so it ends at the first \<^verbatim>\<open></think>\<close> after that; the search goes on
  behind the match. When no \<^verbatim>\<open></think>\<close> follows the first \<^verbatim>\<open><think>\<close>, none
  follows a later one either, and there is no further match. The result is the list of
  the groups.
\<close>

function findall_think :: "string \<Rightarrow> string list" where
  "findall_think s =
     (case split_first OPEN s of
        None \<Rightarrow> []
      | Some (_, r) \<Rightarrow>
          (case split_first CLOSE r of
             None \<Rightarrow> []
           | Some (body, r') \<Rightarrow> body # findall_think r'))"
  by pat_completeness auto
termination
proof (relation "measure length", goal_cases)
  case 1
  show ?case by simp
next
  case (2 s x2 x1 r x2a body r')
  then have "split_first OPEN s = Some (x1, r)" "split_first CLOSE r = Some (body, r')"
    by simp_all
  from split_first_length [OF this(1)] split_first_length [OF this(2)]
  show ?case by (simp add: OPEN_def)
qed

declare findall_think.simps [simp del]

section \<open>Messages, requests and the backend\<close>

text \<open>
  A message is the dictionary \<^verbatim>\<open>{"role": ..., "content": ...}\<close> of the source; the
  two roles that occur are \<^verbatim>\<open>"user"\<close> and \<^verbatim>\<open>"assistant"\<close>.
\<close>

datatype role = User | Assistant

record message =
  msg_role :: role
  msg_content :: string

definition user_message :: "string \<Rightarrow> message" where
  "user_message text = \<lparr>msg_role = User, msg_content = text\<rparr>"

definition assistant_message :: "string \<Rightarrow> message" where
  "assistant_message text = \<lparr>msg_role = Assistant, msg_content = text\<rparr>"

text \<open>
  The exceptions a turn can meet. \<open>APIError\<close> stands for any failure raised by the
  client library (network, authentication, rate limit), \<open>IndexError\<close> is raised by
  \<^verbatim>\<open>chunk.choices[0]\<close> on a chunk without choices, \<open>MarkupError\<close> by rich's
  \<^verbatim>\<open>rprint\<close> on a text whose markup it does not accept. \<open>KeyboardInterrupt\<close> is the
  only one that is not an \<^verbatim>\<open>Exception\<close>, so \<^verbatim>\<open>except Exception\<close> lets it pass.
  \<open>str_exn\<close> is \<^verbatim>\<open>str(e)\<close>; the message that rich gives a \<open>MarkupError\<close> is not
  modelled.
\<close>

datatype exn = APIError string | IndexError | MarkupError | KeyboardInterrupt | EOFError

fun is_Exception :: "exn \<Rightarrow> bool" where
  "is_Exception KeyboardInterrupt = False"
| "is_Exception (APIError m) = True"
| "is_Exception IndexError = True"
| "is_Exception MarkupError = True"
| "is_Exception EOFError = True"

fun str_exn :: "exn \<Rightarrow> string" where
  "str_exn (APIError m) = m"
| "str_exn IndexError = ''list index out of range''"
| "str_exn MarkupError = []"
| "str_exn KeyboardInterrupt = []"
| "str_exn EOFError = []"

text \<open>
  A streamed chunk carries a list of choices, each with a delta; the source reads the
  fields \<^verbatim>\<open>reasoning_content\<close> and \<^verbatim>\<open>content\<close> of the first one, either of which
  may be \<^verbatim>\<open>None\<close>. Iterating over a stream yields a chunk or raises.
\<close>

record delta =
  delta_reasoning_content :: "string option"
  delta_content :: "string option"

record chunk =
  choices :: "delta list"

datatype event = Chunk chunk | Raise exn

text \<open>
  The arguments of \<^verbatim>\<open>client.chat.completions.create\<close>, and what lies outside the
  chain. The endpoint behind the client: what it streams for a request (a call that fails
  at once is a stream whose first event raises), what it returns for a single-shot request
  (the content of the first choice's message, taken to be a string, or an exception), and
  what \<^verbatim>\<open>client.models.list()\<close> returns. And the terminal library, rich, which is
  not part of the repository: \<open>renders\<close> tells of a markup text whether
  \<^verbatim>\<open>rprint\<close> prints it; otherwise \<^verbatim>\<open>rprint\<close> raises \<open>MarkupError\<close>.
\<close>

record request =
  req_model :: string
  req_messages :: "message list"
  req_stream :: bool

record backend =
  streamed :: "request \<Rightarrow> event list"
  completed :: "request \<Rightarrow> exn + string"
  models_list :: "exn + string list"
  renders :: "string \<Rightarrow> bool"

section \<open>The Akash chain (rat-akash.py)\<close>

definition DEEPSEEK_MODEL :: string where
  "DEEPSEEK_MODEL = ''DeepSeek-R1''"

definition LLAMA_MODEL :: string where
  "LLAMA_MODEL = ''Meta-Llama-3-3-70B-Instruct''"

definition NL :: string where
  "NL = [char_of (10 :: nat)]"

text \<open>
  The attributes of \<^verbatim>\<open>AkashModelChain\<close>, and two observations of its effects on
  the outside: the requests issued through \<^verbatim>\<open>self.client\<close> and the texts written
  to the terminal, both oldest first. The line that reports the elapsed time depends on
  the clock and is not recorded.
\<close>

record akash_chain =
  stream :: bool
  deepseek_messages :: "message list"
  llama_messages :: "message list"
  current_model :: string
  show_reasoning :: bool
  requests :: "request list"
  printed :: "string list"

definition init_chain :: "bool \<Rightarrow> akash_chain" where
  "init_chain stream_flag =
     \<lparr>stream = stream_flag, deepseek_messages = [], llama_messages = [],
      current_model = LLAMA_MODEL, show_reasoning = True, requests = [], printed = []\<rparr>"

definition say :: "string \<Rightarrow> akash_chain \<Rightarrow> akash_chain" where
  "say text c = c\<lparr>printed := printed c @ [text]\<rparr>"

definition send :: "request \<Rightarrow> akash_chain \<Rightarrow> akash_chain" where
  "send req c = c\<lparr>requests := requests c @ [req]\<rparr>"

definition set_model :: "string \<Rightarrow> akash_chain \<Rightarrow> akash_chain" where
  "set_model model_name c = c\<lparr>current_model := model_name\<rparr>"

text \<open>
  The streaming loop of \<^verbatim>\<open>get_deepseek_reasoning\<close>: every non-empty content piece is
  added to \<^verbatim>\<open>reasoning_content\<close> and printed when reasoning is shown; the loop
  breaks after the first piece that contains \<^verbatim>\<open></think>\<close>, leaving the rest of the
  stream unread.
\<close>

fun stream_reasoning :: "event list \<Rightarrow> string \<Rightarrow> akash_chain \<Rightarrow> (exn + string) \<times> akash_chain" where
  "stream_reasoning [] reasoning_content c = (Inr reasoning_content, c)"
| "stream_reasoning (Raise e # evs) reasoning_content c = (Inl e, c)"
| "stream_reasoning (Chunk ch # evs) reasoning_content c =
     (case choices ch of
        [] \<Rightarrow> (Inl IndexError, c)
      | d # _ \<Rightarrow>
          (case delta_content d of
             None \<Rightarrow> stream_reasoning evs reasoning_content c
           | Some content_piece \<Rightarrow>
               if content_piece = [] then stream_reasoning evs reasoning_content c
               else if contains CLOSE content_piece
               then (Inr (reasoning_content @ content_piece),
                     if show_reasoning c then say content_piece c else c)
               else stream_reasoning evs (reasoning_content @ content_piece)
                      (if show_reasoning c then say content_piece c else c)))"

text \<open>The single-shot branch: the content is cut behind its first \<^verbatim>\<open></think>\<close>.\<close>

definition single_reasoning :: "string \<Rightarrow> string" where
  "single_reasoning content =
     (if contains CLOSE content then before_first CLOSE content @ CLOSE else content)"

text \<open>The last statement before the return: both markers are deleted, the opening one first.\<close>

definition clean_reasoning :: "string \<Rightarrow> string" where
  "clean_reasoning reasoning_content = str_replace CLOSE [] (str_replace OPEN [] reasoning_content)"

text \<open>
  The request of the reasoning stage has been issued; its answer is read, by the loop when
  the chain streams and in one piece otherwise.
\<close>

definition read_reasoning ::
    "backend \<Rightarrow> request \<Rightarrow> akash_chain \<Rightarrow> (exn + string) \<times> akash_chain" where
  "read_reasoning b req c =
     (if stream c then stream_reasoning (streamed b req) [] c
      else (case completed b req of
              Inl e \<Rightarrow> (Inl e, c)
            | Inr content \<Rightarrow>
                (Inr (single_reasoning content),
                 if show_reasoning c then say (content @ NL) c else c)))"

definition reasoning_request :: "akash_chain \<Rightarrow> request" where
  "reasoning_request c =
     \<lparr>req_model = DEEPSEEK_MODEL, req_messages = deepseek_messages c, req_stream = stream c\<rparr>"

definition get_deepseek_reasoning ::
    "backend \<Rightarrow> string \<Rightarrow> akash_chain \<Rightarrow> (exn + string) \<times> akash_chain" where
  "get_deepseek_reasoning b user_input c0 =
     (let c1 = c0\<lparr>deepseek_messages := deepseek_messages c0 @ [user_message user_input]\<rparr>;
          c2 = (if show_reasoning c1 then say (NL @ ''[blue]Reasoning Process[/]'' @ NL) c1 else c1);
          req = reasoning_request c2;
          c3 = send req c2;
          (r, c4) = read_reasoning b req c3
      in case r of
           Inl e \<Rightarrow> (Inl e, c4)
         | Inr reasoning_content \<Rightarrow>
             (Inr (clean_reasoning reasoning_content),
              if show_reasoning c4 then say (NL @ NL) c4 else c4))"

text \<open>
  The streaming loop of \<^verbatim>\<open>get_llama_response\<close>: every non-empty piece is printed
  and added to \<^verbatim>\<open>full_response\<close>; the stream is read to its end.
\<close>

fun stream_response :: "event list \<Rightarrow> string \<Rightarrow> akash_chain \<Rightarrow> (exn + string) \<times> akash_chain" where
  "stream_response [] full_response c = (Inr full_response, c)"
| "stream_response (Raise e # evs) full_response c = (Inl e, c)"
| "stream_response (Chunk ch # evs) full_response c =
     (case choices ch of
        [] \<Rightarrow> (Inl IndexError, c)
      | d # _ \<Rightarrow>
          (case delta_content d of
             None \<Rightarrow> stream_response evs full_response c
           | Some text \<Rightarrow>
               if text = [] then stream_response evs full_response c
               else stream_response evs (full_response @ text) (say text c)))"

text \<open>The synthetic context built at the head of \<^verbatim>\<open>get_llama_response\<close>.\<close>

definition handoff_messages :: "string \<Rightarrow> string \<Rightarrow> message list" where
  "handoff_messages user_input reasoning =
     [user_message user_input,
      assistant_message (''<thinking>'' @ reasoning @ ''</thinking>'')]"

text \<open>
  The body of the \<^verbatim>\<open>try\<close> block: the request, the reading of the answer and, when
  nothing was raised, the writes to both histories.
\<close>

definition read_response ::
    "backend \<Rightarrow> request \<Rightarrow> akash_chain \<Rightarrow> (exn + string) \<times> akash_chain" where
  "read_response b req c =
     (if stream c then stream_response (streamed b req) [] c
      else (case completed b req of
              Inl e \<Rightarrow> (Inl e, c)
            | Inr full_response \<Rightarrow> (Inr full_response, say (full_response @ NL) c)))"

definition response_request :: "string \<Rightarrow> string \<Rightarrow> akash_chain \<Rightarrow> request" where
  "response_request user_input reasoning c =
     \<lparr>req_model = current_model c, req_messages = handoff_messages user_input reasoning,
      req_stream = stream c\<rparr>"

definition llama_try ::
    "backend \<Rightarrow> string \<Rightarrow> string \<Rightarrow> akash_chain \<Rightarrow> (exn + string) \<times> akash_chain" where
  "llama_try b user_input reasoning c1 =
     (let req = response_request user_input reasoning c1;
          c2 = send req c1;
          (r, c3) = read_response b req c2
      in case r of
           Inl e \<Rightarrow> (Inl e, c3)
         | Inr full_response \<Rightarrow>
             (Inr full_response,
              say (NL @ NL)
                (c3\<lparr>llama_messages := llama_messages c3 @
                       [user_message user_input, assistant_message full_response],
                     deepseek_messages := deepseek_messages c3 @
                       [assistant_message full_response]\<rparr>)))"

text \<open>
  \<^verbatim>\<open>rprint(markup, end=ending)\<close> for a text that interpolates a value: rich prints the
  text if it accepts its markup and raises otherwise. The texts of the other
  \<^verbatim>\<open>rprint\<close> calls of the stages are fixed, well-formed markup; they are recorded with
  \<open>say\<close>.
\<close>

definition rprint :: "backend \<Rightarrow> string \<Rightarrow> string \<Rightarrow> akash_chain \<Rightarrow> exn + akash_chain" where
  "rprint b markup ending c =
     (if renders b markup then Inr (say (markup @ ending) c) else Inl MarkupError)"

text \<open>
  The line with the name of the response model, printed before the \<^verbatim>\<open>try\<close> block, and
  the line with the text of the exception, printed in the \<^verbatim>\<open>except\<close> clause.
\<close>

definition model_line :: "akash_chain \<Rightarrow> string" where
  "model_line c = ''[green]'' @ current_model c @ ''[/]''"

definition error_line :: "exn \<Rightarrow> string" where
  "error_line e = NL @ ''[red]Error in response: '' @ str_exn e @ ''[/]''"

definition announce :: "backend \<Rightarrow> akash_chain \<Rightarrow> exn + akash_chain" where
  "announce b c = rprint b (model_line c) [] c"

text \<open>
  A \<open>MarkupError\<close> of the first line leaves the function before the \<^verbatim>\<open>try\<close> block is
  entered; one of the second is raised inside the \<^verbatim>\<open>except\<close> clause and leaves the
  function in place of the return.
\<close>

definition get_llama_response ::
    "backend \<Rightarrow> string \<Rightarrow> string \<Rightarrow> akash_chain \<Rightarrow> (exn + string) \<times> akash_chain" where
  "get_llama_response b user_input reasoning c0 =
     (case announce b c0 of
        Inl e \<Rightarrow> (Inl e, c0)
      | Inr c1 \<Rightarrow>
          (let (r, c2) = llama_try b user_input reasoning c1
           in case r of
                Inr full_response \<Rightarrow> (Inr full_response, c2)
              | Inl e \<Rightarrow>
                  if is_Exception e
                  then (case rprint b (error_line e) NL c2 of
                          Inl e' \<Rightarrow> (Inl e', c2)
                        | Inr c3 \<Rightarrow> (Inr ''Error occurred while getting response'', c3))
                  else (Inl e, c2)))"

text \<open>
  One turn, the last two statements of the loop body in \<^verbatim>\<open>main\<close>: an exception of
  the reasoning stage leaves the turn before the response stage is entered.
\<close>

definition turn :: "backend \<Rightarrow> string \<Rightarrow> akash_chain \<Rightarrow> (exn + string) \<times> akash_chain" where
  "turn b user_input c =
     (case get_deepseek_reasoning b user_input c of
        (Inl e, c1) \<Rightarrow> (Inl e, c1)
      | (Inr reasoning, c1) \<Rightarrow> get_llama_response b user_input reasoning c1)"

subsection \<open>The command loop\<close>

text \<open>
  \<^verbatim>\<open>str.lower\<close> and \<^verbatim>\<open>str.strip\<close> on texts over the code points below 256, which is
  what a \<open>char\<close> holds: the letters \<open>A\<close> to \<open>Z\<close> and the capital letters from U+00C0 to
  U+00DE (U+00D7, the multiplication sign, is not one) are mapped to the letters 32 code
  points above; the characters stripped from both ends are those for which
  \<^verbatim>\<open>str.isspace\<close> holds, among them U+0085 and U+00A0.
\<close>

definition lower_char :: "char \<Rightarrow> char" where
  "lower_char ch =
     (let n = (of_char ch :: nat)
      in if (65 \<le> n \<and> n \<le> 90) \<or> (192 \<le> n \<and> n \<le> 222 \<and> n \<noteq> 215)
         then char_of (n + 32) else ch)"

definition lower :: "string \<Rightarrow> string" where
  "lower s = map lower_char s"

definition isspace :: "char \<Rightarrow> bool" where
  "isspace ch = ((of_char ch :: nat) \<in> set [9, 10, 11, 12, 13, 28, 29, 30, 31, 32, 133, 160])"

definition strip :: "string \<Rightarrow> string" where
  "strip s = rev (dropWhile isspace (rev (dropWhile isspace s)))"

text \<open>
  What \<^verbatim>\<open>session.prompt\<close> gives one iteration of the loop: a line, or one of the two
  exceptions the loop handles. An iteration goes on to the next one, leaves the loop, or
  lets an exception escape from \<^verbatim>\<open>main\<close>.
\<close>

datatype prompt_input = Line string | PromptInterrupt | PromptEOF

datatype 'c outcome = Continue 'c | Break 'c | Uncaught exn 'c

text \<open>The two \<^verbatim>\<open>except\<close> clauses of the loop.\<close>

fun loop_handlers :: "exn \<Rightarrow> 'c \<Rightarrow> 'c outcome" where
  "loop_handlers KeyboardInterrupt c = Continue c"
| "loop_handlers EOFError c = Break c"
| "loop_handlers (APIError m) c = Uncaught (APIError m) c"
| "loop_handlers IndexError c = Uncaught IndexError c"
| "loop_handlers MarkupError c = Uncaught MarkupError c"

text \<open>
  \<^verbatim>\<open>get_all_models\<close> and the lines that \<^verbatim>\<open>view_models\<close> prints, one per model
  identifier. The bullet that starts each line lies beyond the code points of \<open>char\<close>
  and is written as an asterisk. Of the output of the loop only the failure to print is
  modelled.
\<close>

definition get_all_models :: "string list \<Rightarrow> string list" where
  "get_all_models ids = filter (\<lambda>model. \<not> contains ''DeepSeek-R1'' model) ids"

definition view_models :: "backend \<Rightarrow> string list \<Rightarrow> bool" where
  "view_models b ids = list_all (\<lambda>model. renders b ('' * '' @ model)) (get_all_models ids)"

definition main_step :: "backend \<Rightarrow> prompt_input \<Rightarrow> akash_chain \<Rightarrow> akash_chain outcome" where
  "main_step b inp c =
     (case inp of
        PromptInterrupt \<Rightarrow> Continue c
      | PromptEOF \<Rightarrow> Break c
      | Line raw \<Rightarrow>
          (let user_input = strip raw in
           if lower user_input = ''quit'' then Break c
           else if lower user_input = ''view_models'' then
             (case models_list b of
                Inl e \<Rightarrow> loop_handlers e c
              | Inr ids \<Rightarrow> if view_models b ids then Continue c else loop_handlers MarkupError c)
           else if lower user_input = ''clear'' then
             Continue (c\<lparr>deepseek_messages := [], llama_messages := []\<rparr>)
           else if prefix ''model '' (lower user_input) then
             Continue (set_model (strip (drop 6 user_input)) c)
           else if lower user_input = ''reasoning'' then
             Continue (c\<lparr>show_reasoning := \<not> show_reasoning c\<rparr>)
           else
             (case turn b user_input c of
                (Inl e, c') \<Rightarrow> loop_handlers e c'
              | (Inr llama_response, c') \<Rightarrow> Continue c')))"


section \<open>The local chain (rat-local.py)\<close>

text \<open>
  The response history of the local variant holds messages whose content is a list of
  text blocks \<^verbatim>\<open>{"type": "text", "text": ...}\<close>; a block is modelled by its text.
\<close>

record block_message =
  blk_role :: role
  blk_content :: "string list"

text \<open>
  The attributes of the local \<^verbatim>\<open>ModelChain\<close>. The constructor creates the histories
  \<^verbatim>\<open>deepseek_messages\<close> and \<^verbatim>\<open>response_messages\<close>; an attribute
  \<^verbatim>\<open>claude_messages\<close> exists only once something has assigned to it. The two stages
  are given what the streams of their requests deliver; the terminal output of this
  variant is not recorded.
\<close>

record local_chain =
  local_deepseek_messages :: "message list"
  response_messages :: "block_message list"
  claude_messages :: "block_message list option"
  local_current_model :: string
  local_show_reasoning :: bool

definition RESPONSE_MODEL :: string where
  "RESPONSE_MODEL = ''meta-llama-3.1-8b-instruct''"

definition init_local :: local_chain where
  "init_local =
     \<lparr>local_deepseek_messages = [], response_messages = [], claude_messages = None,
      local_current_model = RESPONSE_MODEL, local_show_reasoning = True\<rparr>"

text \<open>The three variables of the streaming loop of the local reasoning stage.\<close>

record extraction =
  full_response :: string
  is_thinking :: bool
  think_content :: string

definition local_piece :: "string \<Rightarrow> extraction \<Rightarrow> extraction" where
  "local_piece piece x =
     (let x1 = x\<lparr>full_response := full_response x @ piece\<rparr>;
          x2 = (if contains OPEN piece then x1\<lparr>is_thinking := True, think_content := []\<rparr> else x1)
      in if is_thinking x2
         then (let x3 = x2\<lparr>think_content := think_content x2 @ piece\<rparr>
               in if contains CLOSE piece then x3\<lparr>is_thinking := False\<rparr> else x3)
         else x2)"

fun local_stream :: "event list \<Rightarrow> extraction \<Rightarrow> exn + extraction" where
  "local_stream [] x = Inr x"
| "local_stream (Raise e # evs) x = Inl e"
| "local_stream (Chunk ch # evs) x =
     (case choices ch of
        [] \<Rightarrow> local_stream evs x
      | d # _ \<Rightarrow>
          (case delta_content d of
             None \<Rightarrow> local_stream evs x
           | Some piece \<Rightarrow>
               if piece = [] then local_stream evs x else local_stream evs (local_piece piece x)))"

text \<open>
  The local reasoning stage, given what the stream of the request delivers; it returns
  the list of the groups found in \<^verbatim>\<open>think_content\<close>.
\<close>

definition local_get_deepseek_reasoning ::
    "event list \<Rightarrow> string \<Rightarrow> local_chain \<Rightarrow> (exn + string list) \<times> local_chain" where
  "local_get_deepseek_reasoning evs user_input c0 =
     (let c1 = c0\<lparr>local_deepseek_messages :=
                  local_deepseek_messages c0 @ [user_message user_input]\<rparr>
      in case local_stream evs \<lparr>full_response = [], is_thinking = False, think_content = []\<rparr> of
           Inl e \<Rightarrow> (Inl e, c1)
         | Inr x \<Rightarrow> (Inr (findall_think (think_content x)), c1))"

text \<open>
  The streaming loop of \<^verbatim>\<open>get_local_response\<close>: the first choice is read without a
  guard, and every content that is not \<^verbatim>\<open>None\<close> is added.
\<close>

fun local_response_stream :: "event list \<Rightarrow> string \<Rightarrow> exn + string" where
  "local_response_stream [] acc = Inr acc"
| "local_response_stream (Raise e # evs) acc = Inl e"
| "local_response_stream (Chunk ch # evs) acc =
     (case choices ch of
        [] \<Rightarrow> Inl IndexError
      | d # _ \<Rightarrow>
          (case delta_content d of
             None \<Rightarrow> local_response_stream evs acc
           | Some text \<Rightarrow> local_response_stream evs (acc @ text)))"

text \<open>
  As in the Akash chain, the name of the model is printed with \<^verbatim>\<open>rprint\<close> before the
  \<^verbatim>\<open>try\<close> block and the text of a caught exception inside the \<^verbatim>\<open>except\<close> clause;
  \<open>rich\<close> tells which markup texts rich prints.
\<close>

definition get_local_response ::
    "(string \<Rightarrow> bool) \<Rightarrow> event list \<Rightarrow> string \<Rightarrow> string list \<Rightarrow> local_chain \<Rightarrow>
     (exn + string) \<times> local_chain" where
  "get_local_response rich evs user_input reasoning c =
     (if \<not> rich (''[green]'' @ local_current_model c @ ''[/]'') then (Inl MarkupError, c)
      else
        (case local_response_stream evs [] of
           Inr acc \<Rightarrow>
             (Inr acc,
              c\<lparr>response_messages := response_messages c @
                   [\<lparr>blk_role = User, blk_content = [user_input]\<rparr>,
                    \<lparr>blk_role = Assistant, blk_content = [acc]\<rparr>],
                 local_deepseek_messages :=
                   local_deepseek_messages c @ [assistant_message acc]\<rparr>)
         | Inl e \<Rightarrow>
             if is_Exception e
             then (if rich (error_line e)
                   then (Inr ''Error occurred while getting response'', c)
                   else (Inl MarkupError, c))
             else (Inl e, c)))"

definition local_turn ::
    "(string \<Rightarrow> bool) \<Rightarrow> event list \<times> event list \<Rightarrow> string \<Rightarrow> local_chain \<Rightarrow>
     (exn + string) \<times> local_chain" where
  "local_turn rich streams user_input c =
     (case local_get_deepseek_reasoning (fst streams) user_input c of
        (Inl e, c1) \<Rightarrow> (Inl e, c1)
      | (Inr reasoning, c1) \<Rightarrow> get_local_response rich (snd streams) user_input reasoning c1)"

definition local_main_step ::
    "(string \<Rightarrow> bool) \<Rightarrow> event list \<times> event list \<Rightarrow> prompt_input \<Rightarrow> local_chain \<Rightarrow>
     local_chain outcome" where
  "local_main_step rich streams inp c =
     (case inp of
        PromptInterrupt \<Rightarrow> Continue c
      | PromptEOF \<Rightarrow> Break c
      | Line raw \<Rightarrow>
          (let user_input = strip raw in
           if lower user_input = ''quit'' then Break c
           else if lower user_input = ''clear'' then
             Continue (c\<lparr>local_deepseek_messages := [], claude_messages := Some []\<rparr>)
           else if prefix ''model '' (lower user_input) then
             Continue (c\<lparr>local_current_model := strip (drop 6 user_input)\<rparr>)
           else if lower user_input = ''reasoning'' then
             Continue (c\<lparr>local_show_reasoning := \<not> local_show_reasoning c\<rparr>)
           else
             (case local_turn rich streams user_input c of
                (Inl e, c') \<Rightarrow> loop_handlers e c'
              | (Inr local_response, c') \<Rightarrow> Continue c')))"

section \<open>The reasoning stage of the Claude chain (rat-claude.py)\<close>

text \<open>
  The reasoning stage of this variant serves two vendors. With
  \<^verbatim>\<open>use_deepseek_openrouter\<close> the reasoning arrives in the field
  \<^verbatim>\<open>reasoning_content\<close> of the deltas and the content is only watched for
  \<^verbatim>\<open></think>\<close>; without it the reasoning arrives inline in the content, as in the
  Akash chain. The record holds the attributes this stage reads or writes. As for the
  local chain, the stage is given what its request delivers (the events of the stream, and
  the result of the single-shot call), and the terminal output is not recorded.
\<close>

record claude_chain =
  use_deepseek_openrouter :: bool
  claude_stream :: bool
  claude_deepseek_messages :: "message list"

text \<open>The truth value of a field that is a string or \<^verbatim>\<open>None\<close>: the string, if not empty.\<close>

fun truthy :: "string option \<Rightarrow> string option" where
  "truthy None = None"
| "truthy (Some s) = (if s = [] then None else Some s)"

fun claude_stream_reasoning :: "bool \<Rightarrow> event list \<Rightarrow> string \<Rightarrow> string \<Rightarrow> exn + string" where
  "claude_stream_reasoning openrouter [] reasoning_content final_content = Inr reasoning_content"
| "claude_stream_reasoning openrouter (Raise e # evs) reasoning_content final_content = Inl e"
| "claude_stream_reasoning openrouter (Chunk ch # evs) reasoning_content final_content =
     (case choices ch of
        [] \<Rightarrow> Inl IndexError
      | d # _ \<Rightarrow>
          (case (if openrouter then truthy (delta_reasoning_content d) else None) of
             Some reasoning_piece \<Rightarrow>
               if contains CLOSE reasoning_piece
               then Inr (reasoning_content @ reasoning_piece)
               else claude_stream_reasoning openrouter evs
                      (reasoning_content @ reasoning_piece) final_content
           | None \<Rightarrow>
               (case truthy (delta_content d) of
                  None \<Rightarrow> claude_stream_reasoning openrouter evs reasoning_content final_content
                | Some content_piece \<Rightarrow>
                    if \<not> openrouter then
                      (if contains CLOSE content_piece
                       then Inr (reasoning_content @ content_piece)
                       else claude_stream_reasoning openrouter evs
                              (reasoning_content @ content_piece) final_content)
                    else
                      (if contains CLOSE (final_content @ content_piece)
                       then Inr reasoning_content
                       else claude_stream_reasoning openrouter evs reasoning_content
                              (final_content @ content_piece)))))"

definition claude_get_deepseek_reasoning ::
    "event list \<Rightarrow> exn + string \<Rightarrow> string \<Rightarrow> claude_chain \<Rightarrow> (exn + string) \<times> claude_chain" where
  "claude_get_deepseek_reasoning evs whole user_input c0 =
     (let c1 = c0\<lparr>claude_deepseek_messages :=
                  claude_deepseek_messages c0 @ [user_message user_input]\<rparr>;
          r = (if claude_stream c1
               then claude_stream_reasoning (use_deepseek_openrouter c1) evs [] []
               else (case whole of
                       Inl e \<Rightarrow> Inl e
                     | Inr content \<Rightarrow> Inr (single_reasoning content)))
      in case r of
           Inl e \<Rightarrow> (Inl e, c1)
         | Inr reasoning_content \<Rightarrow> (Inr (clean_reasoning reasoning_content), c1))"

section \<open>Streams of text fragments\<close>

text \<open>
  The stream that delivers the given text fragments one chunk each, in the content field
  of its only choice, and an endpoint that answers every streamed request with given
  events and every single-shot request with a given text.
\<close>

definition text_chunk :: "string \<Rightarrow> chunk" where
  "text_chunk piece =
     \<lparr>choices = [\<lparr>delta_reasoning_content = None, delta_content = Some piece\<rparr>]\<rparr>"

definition fragments :: "string list \<Rightarrow> event list" where
  "fragments fs = map (\<lambda>piece. Chunk (text_chunk piece)) fs"

text \<open>
  A renderer for the examples, after the rule by which rich matches the tags of a markup
  text. A tag is an opening bracket, a first character that is a small letter or one of
  \<^verbatim>\<open>#\<close>, \<^verbatim>\<open>/\<close>, \<^verbatim>\<open>@\<close>, then characters other than brackets, and a closing bracket; its
  name is what precedes an equals sign. An opening tag is pushed on a stack. A closing
  tag with a name takes the most recent tag of that name off the stack, a closing tag
  without a name takes the top off, and the text is refused if there is none to take.
  Escaped brackets, the normal forms of style names other than lower case without
  surrounding blanks, and the tags of handlers are left out; the theorems below hold for
  any renderer.
\<close>

definition tag_start :: "char \<Rightarrow> bool" where
  "tag_start ch =
     (let n = (of_char ch :: nat)
      in (97 \<le> n \<and> n \<le> 122) \<or> ch = CHR ''#'' \<or> ch = CHR ''/'' \<or> ch = CHR ''@'')"

definition in_tag :: "char \<Rightarrow> bool" where
  "in_tag ch = (ch \<noteq> CHR ''['' \<and> ch \<noteq> CHR '']'')"

fun tag_at :: "string \<Rightarrow> (string \<times> string) option" where
  "tag_at [] = None"
| "tag_at (ch # s) =
     (if ch = CHR ''['' \<and> takeWhile in_tag s \<noteq> [] \<and> tag_start (hd (takeWhile in_tag s)) \<and>
         prefix '']'' (dropWhile in_tag s)
      then Some (takeWhile in_tag s, tl (dropWhile in_tag s))
      else None)"

function markup_ok :: "string list \<Rightarrow> string \<Rightarrow> bool" where
  "markup_ok stack [] = True"
| "markup_ok stack (ch # s) =
     (case tag_at (ch # s) of
        None \<Rightarrow> markup_ok stack s
      | Some (tag, rest) \<Rightarrow>
          (let name = lower (strip (takeWhile (\<lambda>x. x \<noteq> CHR ''='') tag)) in
           if prefix ''/'' name then
             (if strip (tl name) = [] then stack \<noteq> [] \<and> markup_ok (tl stack) rest
              else strip (tl name) \<in> set stack \<and>
                   markup_ok (remove1 (strip (tl name)) stack) rest)
           else markup_ok (name # stack) rest))"
  by pat_completeness auto
termination
proof (relation "measure (\<lambda>(stack, s). length s)", goal_cases)
  case 1
  show ?case by simp
next
  case (2 stack ch s)
  show ?case by simp
next
  case (3 stack ch s x2 tag rest name)
  then have "rest = tl (dropWhile in_tag s)" by (auto split: if_splits)
  then have "length rest \<le> length s"
    using length_dropWhile_le [of in_tag s] by simp
  then show ?case by simp
next
  case (4 stack ch s x2 tag rest name)
  then have "rest = tl (dropWhile in_tag s)" by (auto split: if_splits)
  then have "length rest \<le> length s"
    using length_dropWhile_le [of in_tag s] by simp
  then show ?case by simp
next
  case (5 stack ch s x2 tag rest name)
  then have "rest = tl (dropWhile in_tag s)" by (auto split: if_splits)
  then have "length rest \<le> length s"
    using length_dropWhile_le [of in_tag s] by simp
  then show ?case by simp
qed

definition rich_example :: "string \<Rightarrow> bool" where
  "rich_example markup = markup_ok [] markup"

definition endpoint :: "event list \<Rightarrow> string \<Rightarrow> backend" where
  "endpoint evs text =
     \<lparr>streamed = (\<lambda>req. evs), completed = (\<lambda>req. Inr text), models_list = Inr [],
      renders = rich_example\<rparr>"

text \<open>
  An endpoint that streams one given sequence of events to requests for the reasoning
  model and another to every other request, and does not serve single-shot requests.
\<close>

definition scripted :: "event list \<Rightarrow> event list \<Rightarrow> backend" where
  "scripted reasoning_events response_events =
     \<lparr>streamed = (\<lambda>req. if req_model req = DEEPSEEK_MODEL then reasoning_events
                          else response_events),
      completed = (\<lambda>req. Inl (APIError ''stream only'')),
      models_list = Inr [],
      renders = rich_example\<rparr>"

subsection \<open>The loop of \<^verbatim>\<open>main\<close>\<close>

text \<open>
  The \<^verbatim>\<open>while True\<close> loop over the inputs that arrive: it runs one iteration per
  input until an iteration breaks or lets an exception escape; when the inputs run out it
  is waiting at the prompt.
\<close>

fun run_loop :: "('i \<Rightarrow> 'c \<Rightarrow> 'c outcome) \<Rightarrow> 'i list \<Rightarrow> 'c \<Rightarrow> 'c outcome" where
  "run_loop step [] c = Continue c"
| "run_loop step (i # inputs) c =
     (case step i c of
        Continue c' \<Rightarrow> run_loop step inputs c'
      | Break c' \<Rightarrow> Break c'
      | Uncaught e c' \<Rightarrow> Uncaught e c')"

definition main :: "bool \<Rightarrow> (backend \<times> prompt_input) list \<Rightarrow> akash_chain outcome" where
  "main stream_flag inputs =
     run_loop (\<lambda>i. main_step (fst i) (snd i)) inputs (init_chain stream_flag)"

definition local_main ::
    "(string \<Rightarrow> bool) \<Rightarrow> ((event list \<times> event list) \<times> prompt_input) list \<Rightarrow>
     local_chain outcome" where
  "local_main rich inputs =
     run_loop (\<lambda>i. local_main_step rich (fst i) (snd i)) inputs init_local"

section \<open>The classification the specification describes\<close>





text \<open>
  Endpoints for examples: one whose response stream breaks off with an error after its
  first chunk, one that answers, and a run of two turns that both go through.
\<close>

definition breaking_endpoint :: backend where
  "breaking_endpoint =
     scripted (fragments [''<think>plan A</think>''])
       [Chunk (text_chunk ''Do ''), Raise (APIError ''timeout'')]"



section \<open>Notions used in the statements\<close>

text \<open>
  Two chains agree on everything but the terminal output; and on everything but the
  terminal output and the reasoning toggle.
\<close>

definition printed_only :: "akash_chain \<Rightarrow> akash_chain \<Rightarrow> bool" where
  "printed_only c c' =
     (stream c' = stream c \<and> deepseek_messages c' = deepseek_messages c \<and>
      llama_messages c' = llama_messages c \<and> current_model c' = current_model c \<and>
      show_reasoning c' = show_reasoning c \<and> requests c' = requests c)"

definition same_but_display :: "akash_chain \<Rightarrow> akash_chain \<Rightarrow> bool" where
  "same_but_display c c' =
     (stream c' = stream c \<and> deepseek_messages c' = deepseek_messages c \<and>
      llama_messages c' = llama_messages c \<and> current_model c' = current_model c \<and>
      requests c' = requests c)"

text \<open>
  The chain once the line with the model name has been printed, and the chain once the
  reasoning stage has recorded the query and issued its request.
\<close>

definition announced :: "akash_chain \<Rightarrow> akash_chain" where
  "announced c = say (model_line c) c"


definition asked :: "string \<Rightarrow> akash_chain \<Rightarrow> akash_chain" where
  "asked user_input c =
     send \<lparr>req_model = DEEPSEEK_MODEL,
           req_messages = deepseek_messages c @ [user_message user_input],
           req_stream = stream c\<rparr>
       (c\<lparr>deepseek_messages := deepseek_messages c @ [user_message user_input]\<rparr>)"

text \<open>
  The exception that ends the response stage of a turn, if any, entered with the
  reasoning \<open>reasoning\<close> in the chain \<open>c1\<close> left by the reasoning stage: the
  \<open>MarkupError\<close> of the line with the model name, or what the \<^verbatim>\<open>try\<close> block raises. A
  turn succeeds when neither stage raises.
\<close>

definition response_failure :: "backend \<Rightarrow> string \<Rightarrow> string \<Rightarrow> akash_chain \<Rightarrow> exn option" where
  "response_failure b user_input reasoning c1 =
     (case announce b c1 of
        Inl e \<Rightarrow> Some e
      | Inr c2 \<Rightarrow>
          (case fst (llama_try b user_input reasoning c2) of
             Inl e \<Rightarrow> Some e
           | Inr answer \<Rightarrow> None))"

definition succeeds :: "backend \<Rightarrow> string \<Rightarrow> akash_chain \<Rightarrow> bool" where
  "succeeds b user_input c =
     (case get_deepseek_reasoning b user_input c of
        (Inl e, c1) \<Rightarrow> False
      | (Inr reasoning, c1) \<Rightarrow> response_failure b user_input reasoning c1 = None)"



section \<open>Effects of the stages on the chain\<close>

lemma printed_only_refl [simp]: "printed_only c c"
  by (simp add: printed_only_def)

lemma printed_only_say [simp]: "printed_only c (say text c') = printed_only c c'"
  by (simp add: printed_only_def say_def)

lemma printed_only_say_left [simp]: "printed_only (say text c) c' = printed_only c c'"
  by (simp add: printed_only_def say_def)

lemma printed_only_trans: "printed_only a b \<Longrightarrow> printed_only b c \<Longrightarrow> printed_only a c"
  by (simp add: printed_only_def)

lemma stream_reasoning_frame: "printed_only c (snd (stream_reasoning evs acc c))"
proof (induction evs acc c rule: stream_reasoning.induct)
  case (3 ch evs acc c)
  then show ?case
    by (auto split: list.splits option.splits)
qed simp_all

lemma stream_response_frame: "printed_only c (snd (stream_response evs acc c))"
proof (induction evs acc c rule: stream_response.induct)
  case (3 ch evs acc c)
  then show ?case
    by (auto split: list.splits option.splits)
qed simp_all

lemma read_reasoning_frameD: "read_reasoning b req c = (r, c') \<Longrightarrow> printed_only c c'"
  using stream_reasoning_frame [of c "streamed b req" "[]"]
  by (auto simp: read_reasoning_def split: if_splits sum.splits)

lemma read_response_frameD: "read_response b req c = (r, c') \<Longrightarrow> printed_only c c'"
  using stream_response_frame [of c "streamed b req" "[]"]
  by (auto simp: read_response_def split: if_splits sum.splits)

lemma get_deepseek_reasoning_frame:
  "printed_only (asked user_input c) (snd (get_deepseek_reasoning b user_input c))"
  by (auto simp: get_deepseek_reasoning_def Let_def asked_def printed_only_def send_def say_def
        reasoning_request_def
      split: prod.splits sum.splits dest!: read_reasoning_frameD)

lemma llama_try_raised:
  "llama_try b user_input reasoning c = (Inl e, c') \<Longrightarrow>
   printed_only (send (response_request user_input reasoning c) c) c'"
  by (auto simp: llama_try_def Let_def split: prod.splits sum.splits dest!: read_response_frameD)

lemma llama_try_returned:
  "llama_try b user_input reasoning c = (Inr answer, c') \<Longrightarrow>
   printed_only
     ((send (response_request user_input reasoning c) c)
        \<lparr>llama_messages := llama_messages c @
           [user_message user_input, assistant_message answer],
         deepseek_messages := deepseek_messages c @ [assistant_message answer]\<rparr>) c'"
  by (auto simp: llama_try_def Let_def printed_only_def send_def say_def
      split: prod.splits sum.splits dest!: read_response_frameD)

lemma announce_rendered: "renders b (model_line c) \<Longrightarrow> announce b c = Inr (announced c)"
  by (simp add: announce_def rprint_def announced_def)

lemma announce_refused: "\<not> renders b (model_line c) \<Longrightarrow> announce b c = Inl MarkupError"
  by (simp add: announce_def rprint_def)

lemma printed_only_announced [simp]: "printed_only c (announced c)"
  by (simp add: announced_def)

lemma get_llama_response_refused:
  "\<not> renders b (model_line c) \<Longrightarrow>
   get_llama_response b user_input reasoning c = (Inl MarkupError, c)"
  by (simp add: get_llama_response_def announce_refused)

lemma get_llama_response_frame:
  "renders b (model_line c) \<Longrightarrow>
   printed_only (snd (llama_try b user_input reasoning (announced c)))
     (snd (get_llama_response b user_input reasoning c))"
  by (simp add: get_llama_response_def announce_rendered rprint_def Let_def
      split: prod.splits sum.splits)


lemma response_failure_rendered:
  "renders b (model_line c) \<Longrightarrow>
   response_failure b user_input reasoning c =
     (case fst (llama_try b user_input reasoning (announced c)) of
        Inl e \<Rightarrow> Some e
      | Inr answer \<Rightarrow> None)"
  by (simp add: response_failure_def announce_rendered)


lemma turn_reasoned:
  "get_deepseek_reasoning b user_input c = (Inr reasoning, c1) \<Longrightarrow>
   turn b user_input c = get_llama_response b user_input reasoning c1"
  by (simp add: turn_def)

lemma turn_unreasoned:
  "get_deepseek_reasoning b user_input c = (Inl e, c1) \<Longrightarrow> turn b user_input c = (Inl e, c1)"
  by (simp add: turn_def)

lemma asked_fields [simp]:
  "deepseek_messages (asked user_input c) = deepseek_messages c @ [user_message user_input]"
  "llama_messages (asked user_input c) = llama_messages c"
  "stream (asked user_input c) = stream c"
  "current_model (asked user_input c) = current_model c"
  "show_reasoning (asked user_input c) = show_reasoning c"
  "requests (asked user_input c) = requests c @
     [\<lparr>req_model = DEEPSEEK_MODEL,
       req_messages = deepseek_messages c @ [user_message user_input],
       req_stream = stream c\<rparr>]"
  by (simp_all add: asked_def send_def)

lemma turn_failure:
  assumes "\<not> succeeds b user_input c"
  shows "deepseek_messages (snd (turn b user_input c)) =
           deepseek_messages c @ [user_message user_input] \<and>
         llama_messages (snd (turn b user_input c)) = llama_messages c"
proof -
  obtain r c1 where g: "get_deepseek_reasoning b user_input c = (r, c1)"
    by fastforce
  have c1: "printed_only (asked user_input c) c1"
    using get_deepseek_reasoning_frame [of user_input c b] g by simp
  show ?thesis
  proof (cases r)
    case (Inl e)
    with g have "turn b user_input c = (Inl e, c1)" by (simp add: turn_unreasoned)
    with c1 show ?thesis by (simp add: printed_only_def)
  next
    case (Inr reasoning)
    with g have t: "turn b user_input c = get_llama_response b user_input reasoning c1"
      by (simp add: turn_reasoned)
    show ?thesis
    proof (cases "renders b (model_line c1)")
      case False
      with t c1 show ?thesis
        by (simp add: get_llama_response_refused printed_only_def)
    next
      case True
      obtain r2 c2 where l: "llama_try b user_input reasoning (announced c1) = (r2, c2)"
        by fastforce
      from assms g Inr l True obtain e where e: "r2 = Inl e"
        by (cases r2) (auto simp: succeeds_def response_failure_rendered)
      from llama_try_raised [OF l [unfolded e]]
      have "printed_only
          (send (response_request user_input reasoning (announced c1)) (announced c1)) c2" .
      moreover have "printed_only c2 (snd (get_llama_response b user_input reasoning c1))"
        using get_llama_response_frame [OF True, of user_input reasoning] l by simp
      ultimately show ?thesis using c1 t
        by (simp add: printed_only_def send_def announced_def say_def)
    qed
  qed
qed



section \<open>What a stage returns does not depend on the display\<close>

lemma stream_reasoning_fst:
  "fst (stream_reasoning evs acc c) = fst (stream_reasoning evs acc c')"
proof (induction evs arbitrary: acc c c')
  case Nil
  show ?case by simp
next
  case (Cons ev evs)
  show ?case
  proof (cases ev)
    case (Raise e)
    then show ?thesis by simp
  next
    case (Chunk ch)
    show ?thesis
    proof (cases "choices ch")
      case Nil
      with Chunk show ?thesis by simp
    next
      case (Cons d ds)
      show ?thesis
      proof (cases "delta_content d")
        case None
        with Chunk Cons Cons.IH [of acc c c'] show ?thesis by simp
      next
        case (Some piece)
        with Chunk Cons Cons.IH [of acc c c']
          Cons.IH [of "acc @ piece" "if show_reasoning c then say piece c else c"
            "if show_reasoning c' then say piece c' else c'"]
        show ?thesis by simp
      qed
    qed
  qed
qed

lemma stream_response_fst:
  "fst (stream_response evs acc c) = fst (stream_response evs acc c')"
proof (induction evs arbitrary: acc c c')
  case Nil
  show ?case by simp
next
  case (Cons ev evs)
  show ?case
  proof (cases ev)
    case (Raise e)
    then show ?thesis by simp
  next
    case (Chunk ch)
    show ?thesis
    proof (cases "choices ch")
      case Nil
      with Chunk show ?thesis by simp
    next
      case (Cons d ds)
      show ?thesis
      proof (cases "delta_content d")
        case None
        with Chunk Cons Cons.IH [of acc c c'] show ?thesis by simp
      next
        case (Some piece)
        with Chunk Cons Cons.IH [of acc c c']
          Cons.IH [of "acc @ piece" "say piece c" "say piece c'"]
        show ?thesis by simp
      qed
    qed
  qed
qed

lemma read_reasoning_fst:
  "stream c = stream c' \<Longrightarrow> fst (read_reasoning b req c) = fst (read_reasoning b req c')"
  using stream_reasoning_fst [of "streamed b req" "[]" c c']
  by (simp add: read_reasoning_def split: sum.splits)

lemma read_response_fst:
  "stream c = stream c' \<Longrightarrow> fst (read_response b req c) = fst (read_response b req c')"
  using stream_response_fst [of "streamed b req" "[]" c c']
  by (simp add: read_response_def split: sum.splits)

lemma get_deepseek_reasoning_fst:
  "fst (get_deepseek_reasoning b user_input c) =
     (case fst (read_reasoning b (reasoning_request (asked user_input c)) (asked user_input c)) of
        Inl e \<Rightarrow> Inl e
      | Inr reasoning_content \<Rightarrow> Inr (clean_reasoning reasoning_content))"
proof -
  define c1 where "c1 = c\<lparr>deepseek_messages := deepseek_messages c @ [user_message user_input]\<rparr>"
  define c2 where
    "c2 = (if show_reasoning c1 then say (NL @ ''[blue]Reasoning Process[/]'' @ NL) c1 else c1)"
  have req: "reasoning_request c2 = reasoning_request (asked user_input c)"
    by (simp add: c2_def c1_def reasoning_request_def say_def)
  have "stream (send (reasoning_request c2) c2) = stream (asked user_input c)"
    by (simp add: c2_def c1_def send_def say_def)
  from read_reasoning_fst [OF this]
  have "fst (read_reasoning b (reasoning_request c2) (send (reasoning_request c2) c2)) =
        fst (read_reasoning b (reasoning_request c2) (asked user_input c))" .
  moreover have "fst (get_deepseek_reasoning b user_input c) =
     (case fst (read_reasoning b (reasoning_request c2) (send (reasoning_request c2) c2)) of
        Inl e \<Rightarrow> Inl e
      | Inr reasoning_content \<Rightarrow> Inr (clean_reasoning reasoning_content))"
    unfolding get_deepseek_reasoning_def Let_def c2_def c1_def
    by (simp split: prod.splits sum.splits)
  ultimately show ?thesis by (simp add: req)
qed


lemma llama_try_fst:
  "fst (llama_try b user_input reasoning c) =
   fst (read_response b (response_request user_input reasoning c)
          (send (response_request user_input reasoning c) c))"
  by (simp add: llama_try_def Let_def split: prod.splits sum.splits)

lemma get_deepseek_reasoning_display:
  assumes "same_but_display c c'"
  shows "fst (get_deepseek_reasoning b user_input c) = fst (get_deepseek_reasoning b user_input c') \<and>
         same_but_display (snd (get_deepseek_reasoning b user_input c))
           (snd (get_deepseek_reasoning b user_input c'))"
proof -
  from assms have "reasoning_request (asked user_input c) = reasoning_request (asked user_input c')"
    and "stream (asked user_input c) = stream (asked user_input c')"
    by (simp_all add: same_but_display_def reasoning_request_def)
  then have "fst (read_reasoning b (reasoning_request (asked user_input c)) (asked user_input c)) =
    fst (read_reasoning b (reasoning_request (asked user_input c')) (asked user_input c'))"
    using read_reasoning_fst [of "asked user_input c" "asked user_input c'" b] by simp
  then have "fst (get_deepseek_reasoning b user_input c) = fst (get_deepseek_reasoning b user_input c')"
    by (simp add: get_deepseek_reasoning_fst)
  moreover from assms get_deepseek_reasoning_frame [of user_input c b]
    get_deepseek_reasoning_frame [of user_input c' b]
  have "same_but_display (snd (get_deepseek_reasoning b user_input c))
           (snd (get_deepseek_reasoning b user_input c'))"
    by (simp add: same_but_display_def printed_only_def)
  ultimately show ?thesis by simp
qed

lemma llama_try_display:
  assumes "same_but_display c c'"
  shows "fst (llama_try b user_input reasoning c) = fst (llama_try b user_input reasoning c') \<and>
         same_but_display (snd (llama_try b user_input reasoning c))
           (snd (llama_try b user_input reasoning c'))"
proof -
  from assms have req: "response_request user_input reasoning c = response_request user_input reasoning c'"
    by (simp add: same_but_display_def response_request_def)
  from assms have "stream (send (response_request user_input reasoning c) c) =
      stream (send (response_request user_input reasoning c) c')"
    by (simp add: same_but_display_def send_def)
  from read_response_fst [OF this] req
  have eq: "fst (llama_try b user_input reasoning c) = fst (llama_try b user_input reasoning c')"
    by (simp add: llama_try_fst)
  obtain r d where l: "llama_try b user_input reasoning c = (r, d)"
    by fastforce
  obtain r' d' where l': "llama_try b user_input reasoning c' = (r', d')"
    by fastforce
  from eq l l' have r: "r' = r" by simp
  have "same_but_display d d'"
  proof (cases r)
    case (Inl e)
    from llama_try_raised [OF l [unfolded Inl]] llama_try_raised [OF l' [unfolded r Inl]] assms req
    show ?thesis by (simp add: same_but_display_def printed_only_def send_def)
  next
    case (Inr answer)
    from llama_try_returned [OF l [unfolded Inr]] llama_try_returned [OF l' [unfolded r Inr]] assms req
    show ?thesis by (simp add: same_but_display_def printed_only_def send_def)
  qed
  with eq l l' show ?thesis by simp
qed

lemma get_llama_response_fst:
  "renders b (model_line c) \<Longrightarrow>
   fst (get_llama_response b user_input reasoning c) =
     (case fst (llama_try b user_input reasoning (announced c)) of
        Inr answer \<Rightarrow> Inr answer
      | Inl e \<Rightarrow>
          if is_Exception e
          then (if renders b (error_line e) then Inr ''Error occurred while getting response''
                else Inl MarkupError)
          else Inl e)"
  by (simp add: get_llama_response_def announce_rendered rprint_def Let_def
      split: prod.splits sum.splits)

lemma get_llama_response_display:
  assumes "same_but_display c c'"
  shows "fst (get_llama_response b user_input reasoning c) =
           fst (get_llama_response b user_input reasoning c') \<and>
         same_but_display (snd (get_llama_response b user_input reasoning c))
           (snd (get_llama_response b user_input reasoning c'))"
proof (cases "renders b (model_line c)")
  case False
  moreover from assms have m: "model_line c' = model_line c"
    by (simp add: same_but_display_def model_line_def)
  ultimately show ?thesis using assms
    by (simp add: get_llama_response_refused)
next
  case True
  from assms have m: "model_line c' = model_line c"
    by (simp add: same_but_display_def model_line_def)
  with True have True': "renders b (model_line c')" by simp
  from assms m have "same_but_display (announced c) (announced c')"
    by (simp add: same_but_display_def announced_def say_def)
  from llama_try_display [OF this, of b user_input reasoning]
    get_llama_response_frame [OF True, of user_input reasoning]
    get_llama_response_frame [OF True', of user_input reasoning]
  show ?thesis
    by (simp add: get_llama_response_fst [OF True] get_llama_response_fst [OF True']
        same_but_display_def printed_only_def)
qed

lemma turn_display:
  assumes "same_but_display c c'"
  shows "fst (turn b user_input c) = fst (turn b user_input c') \<and>
         same_but_display (snd (turn b user_input c)) (snd (turn b user_input c'))"
proof -
  obtain r c1 where g: "get_deepseek_reasoning b user_input c = (r, c1)"
    by fastforce
  obtain r' c1' where g': "get_deepseek_reasoning b user_input c' = (r', c1')"
    by fastforce
  from get_deepseek_reasoning_display [OF assms, of b user_input] g g'
  have r: "r' = r" and d: "same_but_display c1 c1'" by simp_all
  show ?thesis
  proof (cases r)
    case (Inl e)
    with g g' r d show ?thesis by (simp add: turn_def)
  next
    case (Inr reasoning)
    with g g' r get_llama_response_display [OF d, of b user_input reasoning]
    show ?thesis by (simp add: turn_def)
  qed
qed

lemma requests_get_llama_response:
  assumes "renders b (model_line c)"
  shows "requests (snd (get_llama_response b user_input reasoning c)) =
         requests c @ [response_request user_input reasoning c]"
proof -
  obtain r d where l: "llama_try b user_input reasoning (announced c) = (r, d)"
    by fastforce
  have "requests d = requests c @ [response_request user_input reasoning c]"
  proof (cases r)
    case (Inl e)
    from llama_try_raised [OF l [unfolded Inl]] show ?thesis
      by (simp add: printed_only_def send_def announced_def say_def response_request_def)
  next
    case (Inr answer)
    from llama_try_returned [OF l [unfolded Inr]] show ?thesis
      by (simp add: printed_only_def send_def announced_def say_def response_request_def)
  qed
  with get_llama_response_frame [OF assms, of user_input reasoning] l show ?thesis
    by (simp add: printed_only_def)
qed

section \<open>The hand-off to the response stage\<close>

text \<open>The template can be read back: the context determines the query and the payload.\<close>

lemma handoff_messages_inject:
  "handoff_messages user_input reasoning = handoff_messages user_input' reasoning' \<longleftrightarrow>
   user_input = user_input' \<and> reasoning = reasoning'"
  by (auto simp: handoff_messages_def user_message_def assistant_message_def)

lemma rich_example_llama: "rich_example ''[green]Meta-Llama-3-3-70B-Instruct[/]''"
  by code_simp

lemma rich_example_local: "rich_example ''[green]meta-llama-3.1-8b-instruct[/]''"
  by code_simp

lemma rich_example_timeout: "rich_example (error_line (APIError ''timeout''))"
  by code_simp

lemma rich_example_unmatched: "\<not> rich_example ''[green][/x][/]''"
  by code_simp

text \<open>
  The response stage is entered only when the reasoning stage has returned, and it
  issues its request only when rich has printed the line with the name of the model: a
  name such as \<^verbatim>\<open>[/x]\<close> makes that line raise before the \<^verbatim>\<open>try\<close> block, and the turn
  ends with the reasoning request as its only request.
\<close>

lemma handoff_refused:
  assumes "get_deepseek_reasoning b user_input c = (Inr reasoning, c1)"
    and "\<not> renders b (''[green]'' @ current_model c @ ''[/]'')"
  shows "turn b user_input c = (Inl MarkupError, c1) \<and>
         requests c1 = requests c @
           [\<lparr>req_model = DEEPSEEK_MODEL,
             req_messages = deepseek_messages c @ [user_message user_input],
             req_stream = stream c\<rparr>]"
proof -
  from get_deepseek_reasoning_frame [of user_input c b] assms(1)
  have "printed_only (asked user_input c) c1" by simp
  then have "requests c1 = requests (asked user_input c)" "current_model c1 = current_model c"
    by (simp_all add: printed_only_def)
  with assms show ?thesis
    by (simp add: turn_reasoned get_llama_response_refused model_line_def)
qed

lemma handoff_refused_example:
  "turn (scripted (fragments [''<think>plan A</think>'']) (fragments [''Do A.'']))
     ''What now?'' (set_model ''[/x]'' (init_chain True)) =
   (Inl MarkupError,
    snd (get_deepseek_reasoning
      (scripted (fragments [''<think>plan A</think>'']) (fragments [''Do A.'']))
      ''What now?'' (set_model ''[/x]'' (init_chain True))))"
proof -
  obtain r c1 where g: "get_deepseek_reasoning
      (scripted (fragments [''<think>plan A</think>'']) (fragments [''Do A.'']))
      ''What now?'' (set_model ''[/x]'' (init_chain True)) = (r, c1)"
    by fastforce
  have "fst (get_deepseek_reasoning
      (scripted (fragments [''<think>plan A</think>'']) (fragments [''Do A.'']))
      ''What now?'' (set_model ''[/x]'' (init_chain True))) = Inr ''plan A''"
    by (simp add: get_deepseek_reasoning_def read_reasoning_def reasoning_request_def
        scripted_def fragments_def text_chunk_def init_chain_def set_model_def say_def send_def
        clean_reasoning_def OPEN_def CLOSE_def Let_def)
  with g have r: "r = Inr ''plan A''" by simp
  have "\<not> renders (scripted (fragments [''<think>plan A</think>'']) (fragments [''Do A.'']))
      (''[green]'' @ current_model (set_model ''[/x]'' (init_chain True)) @ ''[/]'')"
    by (simp add: scripted_def set_model_def init_chain_def rich_example_unmatched)
  from handoff_refused [OF g [unfolded r] this] g show ?thesis by simp
qed

text \<open>
  Claim C5. In every turn in which the response stage issues a request, that is, whose
  reasoning stage returns a payload and in which rich prints the line with the name of
  the response model, the turn issues exactly two requests: the reasoning request with
  the reasoning history, and then one response-stage request whose messages are exactly
  two, the user message with the original query and an assistant message whose content is
  the payload between the fixed markers \<^verbatim>\<open><thinking>\<close> and \<^verbatim>\<open></thinking>\<close>. Neither
  history occurs in it.
\<close>

theorem handoff_context:
  assumes "get_deepseek_reasoning b user_input c = (Inr reasoning, c1)"
    and "renders b (''[green]'' @ current_model c @ ''[/]'')"
  shows "requests (snd (turn b user_input c)) =
           requests c @
           [\<lparr>req_model = DEEPSEEK_MODEL,
             req_messages = deepseek_messages c @ [user_message user_input],
             req_stream = stream c\<rparr>,
            \<lparr>req_model = current_model c,
             req_messages =
               [\<lparr>msg_role = User, msg_content = user_input\<rparr>,
                \<lparr>msg_role = Assistant,
                 msg_content = ''<thinking>'' @ reasoning @ ''</thinking>''\<rparr>],
             req_stream = stream c\<rparr>]"
proof -
  from get_deepseek_reasoning_frame [of user_input c b] assms
  have "printed_only (asked user_input c) c1" by simp
  then have f: "requests c1 = requests (asked user_input c)" "current_model c1 = current_model c"
    "stream c1 = stream c"
    by (simp_all add: printed_only_def)
  with assms(2) have "renders b (model_line c1)" by (simp add: model_line_def)
  from requests_get_llama_response [OF this, of user_input reasoning] f assms(1)
  show ?thesis
    by (simp add: turn_reasoned response_request_def
        handoff_messages_def user_message_def assistant_message_def)
qed

text \<open>
  Claim C9. For every query and every behaviour of the endpoint, a turn run with the
  reasoning display on and the same turn run with it off return the same reasoning
  payload and the same final result, and leave chains that agree on both histories, on the
  requests issued (so on the hand-off content) and on everything else but what was
  printed and the toggle itself.
\<close>

theorem reasoning_toggle_display_only:
  "fst (get_deepseek_reasoning b user_input (c\<lparr>show_reasoning := True\<rparr>)) =
     fst (get_deepseek_reasoning b user_input (c\<lparr>show_reasoning := False\<rparr>)) \<and>
   fst (turn b user_input (c\<lparr>show_reasoning := True\<rparr>)) =
     fst (turn b user_input (c\<lparr>show_reasoning := False\<rparr>)) \<and>
   same_but_display (snd (turn b user_input (c\<lparr>show_reasoning := True\<rparr>)))
     (snd (turn b user_input (c\<lparr>show_reasoning := False\<rparr>)))"
proof -
  have d: "same_but_display (c\<lparr>show_reasoning := True\<rparr>) (c\<lparr>show_reasoning := False\<rparr>)"
    by (simp add: same_but_display_def)
  from get_deepseek_reasoning_display [OF d, of b user_input] turn_display [OF d, of b user_input]
  show ?thesis by simp
qed


lemma example_reasoning:
  "fst (get_deepseek_reasoning
          (scripted (fragments [''<th'', ''ink>plan A</thi'', ''nk>'']) (fragments [''Do A.'']))
          ''What now?'' (init_chain True)) = Inr ''plan A''"
  by (simp add: get_deepseek_reasoning_def read_reasoning_def reasoning_request_def scripted_def
      fragments_def text_chunk_def init_chain_def say_def send_def clean_reasoning_def
      OPEN_def CLOSE_def Let_def)

theorem handoff_context_witness:
  "requests (snd (turn
      (scripted (fragments [''<th'', ''ink>plan A</thi'', ''nk>'']) (fragments [''Do A.'']))
      ''What now?'' (init_chain True))) =
   [\<lparr>req_model = ''DeepSeek-R1'',
     req_messages = [\<lparr>msg_role = User, msg_content = ''What now?''\<rparr>],
     req_stream = True\<rparr>,
    \<lparr>req_model = ''Meta-Llama-3-3-70B-Instruct'',
     req_messages =
       [\<lparr>msg_role = User, msg_content = ''What now?''\<rparr>,
        \<lparr>msg_role = Assistant, msg_content = ''<thinking>plan A</thinking>''\<rparr>],
     req_stream = True\<rparr>]"
proof -
  obtain r c1 where g: "get_deepseek_reasoning
          (scripted (fragments [''<th'', ''ink>plan A</thi'', ''nk>'']) (fragments [''Do A.'']))
          ''What now?'' (init_chain True) = (r, c1)"
    by fastforce
  with example_reasoning have r: "r = Inr ''plan A''" by simp
  have m: "renders
      (scripted (fragments [''<th'', ''ink>plan A</thi'', ''nk>'']) (fragments [''Do A.'']))
      (''[green]'' @ current_model (init_chain True) @ ''[/]'')"
    by (simp add: scripted_def init_chain_def LLAMA_MODEL_def rich_example_llama)
  from handoff_context [OF g [unfolded r] m] show ?thesis
    by (simp add: init_chain_def DEEPSEEK_MODEL_def LLAMA_MODEL_def user_message_def)
qed

section \<open>The histories after a turn\<close>

lemmas run_defs =
  get_deepseek_reasoning_def read_reasoning_def reasoning_request_def scripted_def
  fragments_def text_chunk_def init_chain_def say_def send_def clean_reasoning_def
  OPEN_def CLOSE_def Let_def turn_def get_llama_response_def llama_try_def read_response_def
  response_request_def handoff_messages_def announce_def rprint_def model_line_def
  succeeds_def response_failure_def user_message_def assistant_message_def
  DEEPSEEK_MODEL_def LLAMA_MODEL_def rich_example_llama rich_example_timeout






text \<open>
  Claim C8. In every turn whose reasoning stage returns and whose response stage raises,
  the reasoning history ends up as it was before the turn followed by the user message of
  the turn and nothing else, so with no assistant message behind it, and the response
  history ends up as it was before the turn.
\<close>

theorem response_failure_histories:
  assumes "fst (get_deepseek_reasoning b user_input c) = Inr reasoning"
    and "response_failure b user_input reasoning (snd (get_deepseek_reasoning b user_input c)) = Some e"
  shows "deepseek_messages (snd (turn b user_input c)) =
           deepseek_messages c @ [user_message user_input] \<and>
         llama_messages (snd (turn b user_input c)) = llama_messages c"
proof -
  from assms have "\<not> succeeds b user_input c"
    by (cases "get_deepseek_reasoning b user_input c") (simp add: succeeds_def)
  then show ?thesis by (rule turn_failure)
qed

theorem response_failure_histories_witness:
  "deepseek_messages (snd (turn breaking_endpoint ''hello'' (init_chain True))) =
     [user_message ''hello''] \<and>
   llama_messages (snd (turn breaking_endpoint ''hello'' (init_chain True))) = []"
proof -
  have r: "fst (get_deepseek_reasoning breaking_endpoint ''hello'' (init_chain True)) =
      Inr ''plan A''"
    by (simp add: breaking_endpoint_def run_defs)
  have f: "response_failure breaking_endpoint ''hello'' ''plan A''
     (snd (get_deepseek_reasoning breaking_endpoint ''hello'' (init_chain True))) =
     Some (APIError ''timeout'')"
    by (simp add: breaking_endpoint_def run_defs)
  from response_failure_histories [OF r f] show ?thesis
    by (simp add: init_chain_def)
qed

text \<open>
  Claim C3, as the code has it. A turn in which either stage raises appends nothing to
  the response history and no assistant message to either history; the reasoning history
  keeps the user message that the reasoning stage appended before its request, and is not
  rolled back.
\<close>

theorem failed_turn_histories:
  assumes "\<not> succeeds b user_input c"
  shows "llama_messages (snd (turn b user_input c)) = llama_messages c \<and>
         deepseek_messages (snd (turn b user_input c)) =
           deepseek_messages c @ [user_message user_input] \<and>
         [m \<leftarrow> deepseek_messages (snd (turn b user_input c)). msg_role m = Assistant] =
           [m \<leftarrow> deepseek_messages c. msg_role m = Assistant]"
  using turn_failure [OF assms] by (simp add: user_message_def)

theorem failed_turn_histories_witness:
  "\<not> succeeds (scripted [Raise (APIError ''unreachable'')] []) ''hello'' (init_chain True) \<and>
   llama_messages (snd (turn (scripted [Raise (APIError ''unreachable'')] [])
      ''hello'' (init_chain True))) = [] \<and>
   deepseek_messages (snd (turn (scripted [Raise (APIError ''unreachable'')] [])
      ''hello'' (init_chain True))) = [user_message ''hello'']"
proof -
  have h: "\<not> succeeds (scripted [Raise (APIError ''unreachable'')] []) ''hello'' (init_chain True)"
    by (simp add: run_defs)
  from failed_turn_histories [OF h] h show ?thesis
    by (simp add: init_chain_def)
qed

text \<open>
  The claim as the specification states it fails: the response stage of this turn raises,
  the loop goes on, and the reasoning history, empty before the turn, holds the query.
\<close>

theorem failed_turn_not_rolled_back:
  "\<not> succeeds breaking_endpoint ''hello'' (init_chain True) \<and>
   main_step breaking_endpoint (Line ''hello'') (init_chain True) =
     Continue (snd (turn breaking_endpoint ''hello'' (init_chain True))) \<and>
   deepseek_messages (init_chain True) = [] \<and>
   deepseek_messages (snd (turn breaking_endpoint ''hello'' (init_chain True))) =
     [\<lparr>msg_role = User, msg_content = ''hello''\<rparr>]"
  by (simp add: breaking_endpoint_def run_defs main_step_def strip_def lower_def isspace_def
      lower_char_def)

section \<open>The clear command\<close>

lemmas local_defs = local_main_def local_main_step_def local_turn_def
  local_get_deepseek_reasoning_def get_local_response_def local_piece_def init_local_def
  fragments_def text_chunk_def strip_def lower_def isspace_def lower_char_def
  OPEN_def CLOSE_def Let_def findall_think.simps user_message_def assistant_message_def
  RESPONSE_MODEL_def rich_example_local

lemma main_step_clear:
  "main_step b (Line ''clear'') c = Continue (c\<lparr>deepseek_messages := [], llama_messages := []\<rparr>)"
  by (simp add: main_step_def strip_def lower_def isspace_def lower_char_def)

lemma local_main_step_clear:
  "local_main_step rich streams (Line ''clear'') c =
     Continue (c\<lparr>local_deepseek_messages := [], claude_messages := Some []\<rparr>)"
  by (simp add: local_main_step_def strip_def lower_def isspace_def lower_char_def)

text \<open>
  Claim C4 does not hold in the local variant. Its \<^verbatim>\<open>clear\<close> branch empties
  \<^verbatim>\<open>deepseek_messages\<close> and assigns an empty list to \<^verbatim>\<open>claude_messages\<close>, an
  attribute the local chain does not otherwise have; the response history
  \<^verbatim>\<open>response_messages\<close> keeps its content. After one completed turn and \<^verbatim>\<open>clear\<close>,
  the reasoning history is empty and the response history still holds the turn.
\<close>

theorem local_clear_keeps_response_history:
  "local_main rich_example
     [((fragments [''<think>plan A</think>''], fragments [''Do A.'']), Line ''hello''),
      (([], []), Line ''clear'')] =
   Continue
     \<lparr>local_deepseek_messages = [],
      response_messages =
        [\<lparr>blk_role = User, blk_content = [''hello'']\<rparr>,
         \<lparr>blk_role = Assistant, blk_content = [''Do A.'']\<rparr>],
      claude_messages = Some [],
      local_current_model = RESPONSE_MODEL,
      local_show_reasoning = True\<rparr>"
  by (simp add: local_defs)

section \<open>Fragments and delivery modes of the Akash chain\<close>

lemma CLOSE_not_empty [simp]: "CLOSE \<noteq> []"
  by (simp add: CLOSE_def)




lemma streamed_endpoint [simp]: "streamed (endpoint evs text) req = evs"
  by (simp add: endpoint_def)

lemma completed_endpoint [simp]: "completed (endpoint evs text) req = Inr text"
  by (simp add: endpoint_def)


lemma read_reasoning_single:
  "\<not> stream c \<Longrightarrow> completed b req = Inr text \<Longrightarrow>
   fst (read_reasoning b req c) = Inr (single_reasoning text)"
  by (simp add: read_reasoning_def)


lemma single_payload:
  assumes "\<not> stream c"
  shows "fst (get_deepseek_reasoning (endpoint evs text) user_input c) =
         Inr (clean_reasoning (single_reasoning text))"
proof -
  from assms have "\<not> stream (asked user_input c)" by simp
  from read_reasoning_single [OF this, of "endpoint evs text" _ "text"]
  show ?thesis by (simp add: get_deepseek_reasoning_fst)
qed

section \<open>The buffer of the local chain and the spans found in it\<close>









lemma full_response_local_piece [simp]:
  "full_response (local_piece piece x) = full_response x @ piece"
  by (simp add: local_piece_def Let_def)



lemma OPEN_not_empty [simp]: "OPEN \<noteq> []"
  by (simp add: OPEN_def)











section \<open>Fragmentation, delivery modes and extracted spans\<close>




text \<open>
  Claim C6, as the code has it: the delivery modes do not return the same payload for the
  same content. The streaming loop stops after the first piece that contains a whole
  \<^verbatim>\<open></think>\<close> and keeps that piece to its end, and it does not see a \<^verbatim>\<open></think>\<close> that is
  cut between two pieces; the single-shot branch cuts the text right behind its first
  \<^verbatim>\<open></think>\<close>. With \<^verbatim>\<open><think>a</think>b\<close> in one fragment, or with its \<^verbatim>\<open></think>\<close> cut
  between two fragments and the stream read to its end, streaming returns \<^verbatim>\<open>ab\<close>, and
  single-shot delivery of the same content returns \<^verbatim>\<open>a\<close>.
\<close>

theorem early_stop_keeps_rest_of_fragment:
  "fst (get_deepseek_reasoning
          (endpoint (fragments [''<think>a</think>b'']) ''<think>a</think>b'')
          ''q'' (init_chain True)) = Inr ''ab'' \<and>
   fst (get_deepseek_reasoning
          (endpoint (fragments [''<think>a</thi'', ''nk>b'']) ''<think>a</think>b'')
          ''q'' (init_chain True)) = Inr ''ab'' \<and>
   fst (get_deepseek_reasoning
          (endpoint (fragments [''<think>a</think>b'']) ''<think>a</think>b'')
          ''q'' (init_chain False)) = Inr ''a''"
  by (simp add: run_defs endpoint_def single_reasoning_def)




section \<open>The Claude reasoning stage on inline content\<close>

text \<open>
  Without \<^verbatim>\<open>use_deepseek_openrouter\<close> the reasoning stage of rat-claude.py returns
  what the Akash chain returns for the same answer of the endpoint, streamed or
  single-shot, so the statements on the Akash payload hold for it as well; and it appends
  the user message before anything can fail.
\<close>

lemma claude_inline_stream:
  "claude_stream_reasoning False evs acc final = fst (stream_reasoning evs acc c)"
proof (induction evs arbitrary: acc c)
  case Nil
  show ?case by simp
next
  case (Cons ev evs)
  show ?case
  proof (cases ev)
    case (Raise e)
    then show ?thesis by simp
  next
    case (Chunk ch)
    show ?thesis
    proof (cases "choices ch")
      case Nil
      with Chunk show ?thesis by simp
    next
      case (Cons d ds)
      show ?thesis
      proof (cases "delta_content d")
        case None
        with Chunk Cons Cons.IH [of acc c] show ?thesis by simp
      next
        case (Some piece)
        with Chunk Cons Cons.IH [of acc c]
          Cons.IH [of "acc @ piece" "if show_reasoning c then say piece c else c"]
        show ?thesis by simp
      qed
    qed
  qed
qed

lemma claude_inline_payload:
  assumes "\<not> use_deepseek_openrouter cc" and "claude_stream cc = stream c"
  shows "fst (claude_get_deepseek_reasoning
                (streamed b (reasoning_request (asked user_input c)))
                (completed b (reasoning_request (asked user_input c))) user_input cc) =
         fst (get_deepseek_reasoning b user_input c)"
proof (cases "stream c")
  case True
  with assms claude_inline_stream
    [of "streamed b (reasoning_request (asked user_input c))" "[]" "[]" "asked user_input c"]
  show ?thesis
    by (simp add: claude_get_deepseek_reasoning_def get_deepseek_reasoning_fst
        read_reasoning_def Let_def split: sum.splits)
next
  case False
  with assms show ?thesis
    by (simp add: claude_get_deepseek_reasoning_def get_deepseek_reasoning_fst
        read_reasoning_def Let_def split: sum.splits)
qed

lemma claude_user_message_first:
  "claude_deepseek_messages (snd (claude_get_deepseek_reasoning evs whole user_input c)) =
   claude_deepseek_messages c @ [user_message user_input]"
  by (simp add: claude_get_deepseek_reasoning_def Let_def split: sum.splits)

end
